theory Spec2Isabelle
  imports Main "HOL-Library.Word"
begin

section \<open>Values of the TypeScript snippets\<close>

text \<open>
  The OAuth logic of the repository lives in the TypeScript snippets of
  \<^verbatim>\<open>OAUTH_IMPLEMENTATION_GUIDE.md\<close>. A JavaScript string is a sequence of UTF-16 code
  units, a \<^verbatim>\<open>Buffer\<close> a sequence of bytes. Strings that only travel through URLs, cookies
  and configuration are kept as \<^typ>\<open>string\<close>; token material, which comes out of
  \<^verbatim>\<open>response.json()\<close> and goes through the cipher, is a \<open>jsstring\<close>. Timestamps are
  milliseconds since the epoch, as \<^verbatim>\<open>Date.getTime()\<close> and \<^verbatim>\<open>Date.now()\<close> give them.
  An exception is a value of \<open>exn\<close>, and a function that can throw returns a sum with the
  exception on the left. Names are the source's; where a name is taken (\<^verbatim>\<open>id\<close>,
  \<^verbatim>\<open>method\<close>, or a variable called like a field, such as \<^verbatim>\<open>platform\<close>) it carries a
  prime.
\<close>

type_synonym jsstring = "16 word list"
type_synonym bytes = "8 word list"

text \<open>The JavaScript string of an ASCII literal.\<close>

definition js :: "string \<Rightarrow> jsstring" where
  "js s = map (\<lambda>c. of_nat (of_char c)) s"

datatype exn =
    Error string
  | TypeError
  | SyntaxError
  | CryptoError
  | DbError

text \<open>JavaScript truthiness of an optional string (\<^verbatim>\<open>null\<close>, \<^verbatim>\<open>undefined\<close> and the empty
  string are falsy).\<close>

definition truthy :: "'a list option \<Rightarrow> bool" where
  "truthy v = (case v of None \<Rightarrow> False | Some s \<Rightarrow> s \<noteq> [])"

text \<open>The expression \<^verbatim>\<open>expiresIn ? new Date(Date.now() + expiresIn * 1000) : null\<close>, which
  the callback route and the token refresh share.\<close>

definition expiryDate :: "int \<Rightarrow> int option \<Rightarrow> int option" where
  "expiryDate now expiresIn =
    (case expiresIn of
       None \<Rightarrow> None
     | Some n \<Rightarrow> if n \<noteq> 0 then Some (now + n * 1000) else None)"

text \<open>\<^verbatim>\<open>lib/oauth/providers/base.ts\<close>\<close>

record OAuthProvider =
  name :: string
  clientId :: string
  clientSecret :: string
  authorizationUrl :: string
  tokenUrl :: string
  redirectUri :: string
  scopes :: "string list"

record OAuthTokens =
  accessToken :: jsstring
  refreshToken :: "jsstring option"
  expiresIn :: "int option"
  tokenType :: "string option"

text \<open>The object \<^verbatim>\<open>refreshTokenIfNeeded\<close> hands to \<^verbatim>\<open>updateConnection\<close>.\<close>

record ConnectionPatch =
  accessToken :: jsstring
  refreshToken :: "jsstring option"
  tokenExpiresAt :: "int option"

text \<open>The argument of \<^verbatim>\<open>saveConnection\<close> (\<^verbatim>\<open>lib/db/connections.ts\<close>), and a row of
  \<^verbatim>\<open>social_connections\<close> (\<^verbatim>\<open>lib/db/schema.ts\<close>), which has the same columns and four
  more. The table is the list of its rows in insertion order.\<close>

record ConnectionData =
  userId :: string
  platform :: string
  accessToken :: jsstring
  refreshToken :: "jsstring option"
  tokenExpiresAt :: "int option"
  platformUserId :: string
  platformUsername :: "string option"
  platformProfileImage :: "string option"
  scopes :: "string list"

record SocialConnection = ConnectionData +
  id' :: string
  isActive :: bool
  connectedAt :: "int option"
  lastRefreshedAt :: "int option"

type_synonym table = "SocialConnection list"

record http_request =
  url :: string
  method' :: string
  headers :: "(string \<times> string) list"
  body :: "(string \<times> string) list"

record http_response =
  status :: nat
  bodyText :: string

text \<open>Calls that leave the process or reach a collaborator, in the order they are made.\<close>

datatype call =
    Fetch http_request
  | FetchUserProfile string jsstring
  | RefreshAccessToken string "jsstring option"
  | UpdateConnection string ConnectionPatch

record 'a outcome =
  result :: 'a
  store :: table
  calls :: "call list"

section \<open>Token refresh\<close>

text \<open>
  \<^verbatim>\<open>lib/oauth/token-refresh.ts\<close>. The helpers \<^verbatim>\<open>refreshAccessToken\<close> and
  \<^verbatim>\<open>updateConnection\<close> are called but not defined by the guide; they are the parameters
  \<open>refreshAccessToken\<close> and \<open>updateConnection\<close>. \<^verbatim>\<open>Date.now()\<close> is read twice, first
  as \<open>now\<close> for the check and then as \<open>now'\<close> for the new expiry. A \<^verbatim>\<open>Date\<close> object is
  always truthy, so the first test is a test for \<^verbatim>\<open>null\<close>.
\<close>

definition refreshTokenIfNeeded ::
  "(string \<Rightarrow> jsstring option \<Rightarrow> exn + OAuthTokens) \<Rightarrow>
   (string \<Rightarrow> ConnectionPatch \<Rightarrow> table \<Rightarrow> exn + table) \<Rightarrow>
   int \<Rightarrow> int \<Rightarrow> SocialConnection \<Rightarrow> table \<Rightarrow> (exn + jsstring) outcome" where
  "refreshTokenIfNeeded refreshAccessToken updateConnection now now' connection db =
    (case ConnectionData.tokenExpiresAt connection of
       None \<Rightarrow>
         \<lparr>result = Inr (ConnectionData.accessToken connection), store = db, calls = []\<rparr>
     | Some expiresAt \<Rightarrow>
         let expiresIn = expiresAt - now;
             bufferTime = 5 * 60 * 1000
         in
         if expiresIn < bufferTime then
           (case refreshAccessToken (platform connection)
                   (ConnectionData.refreshToken connection) of
              Inl e \<Rightarrow>
                \<lparr>result = Inl e, store = db,
                 calls = [RefreshAccessToken (platform connection)
                            (ConnectionData.refreshToken connection)]\<rparr>
            | Inr newTokens \<Rightarrow>
                let patch =
                  \<lparr>ConnectionPatch.accessToken = OAuthTokens.accessToken newTokens,
                   refreshToken =
                     (if truthy (OAuthTokens.refreshToken newTokens)
                      then OAuthTokens.refreshToken newTokens
                      else ConnectionData.refreshToken connection),
                   tokenExpiresAt = expiryDate now' (OAuthTokens.expiresIn newTokens)\<rparr>;
                    made = [RefreshAccessToken (platform connection)
                              (ConnectionData.refreshToken connection),
                            UpdateConnection (id' connection) patch]
                in
                (case updateConnection (id' connection) patch db of
                   Inl e \<Rightarrow> \<lparr>result = Inl e, store = db, calls = made\<rparr>
                 | Inr db' \<Rightarrow>
                     \<lparr>result = Inr (OAuthTokens.accessToken newTokens), store = db',
                      calls = made\<rparr>))
         else
           \<lparr>result = Inr (ConnectionData.accessToken connection), store = db, calls = []\<rparr>)"

section \<open>Token exchange\<close>

text \<open>
  \<^verbatim>\<open>lib/oauth/providers/utils.ts\<close>. \<^verbatim>\<open>getProviderConfig\<close> is imported but not shown and
  is a parameter, as are the network (\<open>fetch\<close>: a rejection or a response) and the JSON
  body of a response (\<open>json\<close>: a parse error or the fields the function reads, at the
  types \<^verbatim>\<open>OAuthTokens\<close> declares). An unknown platform makes \<^verbatim>\<open>provider.tokenUrl\<close> a
  \<^verbatim>\<open>TypeError\<close> before anything is sent. \<^verbatim>\<open>response.ok\<close> is a status from 200 to 299.
\<close>

record token_data =
  access_token :: jsstring
  refresh_token :: "jsstring option"
  expires_in :: "int option"
  token_type :: "string option"

definition ok :: "http_response \<Rightarrow> bool" where
  "ok response = (200 \<le> status response \<and> status response \<le> 299)"

definition token_request :: "OAuthProvider \<Rightarrow> string \<Rightarrow> http_request" where
  "token_request provider code =
    \<lparr>url = tokenUrl provider,
     method' = ''POST'',
     headers = [(''Content-Type'', ''application/x-www-form-urlencoded'')],
     body = [(''client_id'', clientId provider),
             (''client_secret'', clientSecret provider),
             (''code'', code),
             (''grant_type'', ''authorization_code''),
             (''redirect_uri'', redirectUri provider)]\<rparr>"

definition exchangeCodeForTokens ::
  "(string \<Rightarrow> OAuthProvider option) \<Rightarrow> (http_request \<Rightarrow> exn + http_response) \<Rightarrow>
   (http_response \<Rightarrow> exn + token_data) \<Rightarrow> string \<Rightarrow> string \<Rightarrow>
   (exn + OAuthTokens) \<times> call list" where
  "exchangeCodeForTokens getProviderConfig fetch json platform' code =
    (case getProviderConfig platform' of
       None \<Rightarrow> (Inl TypeError, [])
     | Some provider \<Rightarrow>
         let request = token_request provider code in
         (case fetch request of
            Inl e \<Rightarrow> (Inl e, [Fetch request])
          | Inr response \<Rightarrow>
              if \<not> ok response then
                (Inl (Error (''Token exchange failed: '' @ bodyText response)), [Fetch request])
              else
                (case json response of
                   Inl e \<Rightarrow> (Inl e, [Fetch request])
                 | Inr data \<Rightarrow>
                     (Inr \<lparr>OAuthTokens.accessToken = access_token data,
                           refreshToken = refresh_token data,
                           expiresIn = expires_in data,
                           tokenType = token_type data\<rparr>,
                      [Fetch request]))))"

text \<open>\<^verbatim>\<open>lib/oauth/providers/facebook.ts\<close>, with the three environment variables it reads.\<close>

definition facebookProvider :: "string \<Rightarrow> string \<Rightarrow> string \<Rightarrow> OAuthProvider" where
  "facebookProvider FACEBOOK_APP_ID FACEBOOK_APP_SECRET NEXT_PUBLIC_APP_URL =
    \<lparr>name = ''facebook'',
     clientId = FACEBOOK_APP_ID,
     clientSecret = FACEBOOK_APP_SECRET,
     authorizationUrl = ''https://www.facebook.com/v18.0/dialog/oauth'',
     tokenUrl = ''https://graph.facebook.com/v18.0/oauth/access_token'',
     redirectUri = NEXT_PUBLIC_APP_URL @ ''/api/auth/facebook/callback'',
     scopes = [''pages_manage_posts'', ''pages_read_engagement'', ''pages_show_list'']\<rparr>"

section \<open>Strings and buffers\<close>

text \<open>
  What the snippets use of the platform's strings and buffers. \<^verbatim>\<open>buf.toString('hex')\<close>
  writes two lower-case digits per byte. \<^verbatim>\<open>Buffer.from(s, 'hex')\<close> reads pairs of digits of
  either case and stops at the first pair that is not hexadecimal, or at a last single
  character. \<^verbatim>\<open>s.split(':')\<close> always yields at least one part.
\<close>

definition hexDigit :: "nat \<Rightarrow> 16 word" where
  "hexDigit n = (if n < 10 then of_nat (48 + n) else of_nat (87 + n))"

definition hexValue :: "16 word \<Rightarrow> nat option" where
  "hexValue c =
    (let n = unat c in
     if 48 \<le> n \<and> n \<le> 57 then Some (n - 48)
     else if 97 \<le> n \<and> n \<le> 102 then Some (n - 87)
     else if 65 \<le> n \<and> n \<le> 70 then Some (n - 55)
     else None)"

fun toHex :: "bytes \<Rightarrow> jsstring" where
  "toHex [] = []"
| "toHex (b # bs) = hexDigit (unat b div 16) # hexDigit (unat b mod 16) # toHex bs"

fun fromHex :: "jsstring \<Rightarrow> bytes" where
  "fromHex (c # d # s) =
    (case hexValue c of
       None \<Rightarrow> []
     | Some h \<Rightarrow>
         (case hexValue d of
            None \<Rightarrow> []
          | Some l \<Rightarrow> of_nat (16 * h + l) # fromHex s))"
| "fromHex s = []"

definition colon :: "16 word" where
  "colon = 58"

fun split_str :: "'a \<Rightarrow> 'a list \<Rightarrow> 'a list list" where
  "split_str sep [] = [[]]"
| "split_str sep (c # s) =
    (if c = sep then [] # split_str sep s
     else (case split_str sep s of
             [] \<Rightarrow> [[c]]
           | part # parts \<Rightarrow> (c # part) # parts))"

fun join_str :: "'a \<Rightarrow> 'a list list \<Rightarrow> 'a list" where
  "join_str sep [] = []"
| "join_str sep [part] = part"
| "join_str sep (part # parts) = part @ sep # join_str sep parts"

subsection \<open>UTF-8\<close>

text \<open>
  \<^verbatim>\<open>cipher.update(token)\<close> takes the UTF-8 bytes of the string, and
  \<^verbatim>\<open>decrypted.toString()\<close> decodes UTF-8. Encoding reads the code units as code points
  (a high surrogate followed by a low one is one code point; a surrogate on its own is
  written as U+FFFD). Decoding is the replacement decoder: a byte that cannot start or
  continue a sequence gives U+FFFD, and a byte that interrupts a sequence is read again as
  a first byte. The decoder state is the code point so far, the number of bytes still
  needed and the bounds of the next byte. The payload bits of a byte are written as a
  difference: within the range tested, \<open>b - 0xC0\<close> is \<^verbatim>\<open>b & 0x1F\<close>, \<open>b - 0xE0\<close> is
  \<^verbatim>\<open>b & 0x0F\<close>, \<open>b - 0xF0\<close> is \<^verbatim>\<open>b & 0x07\<close> and \<open>b - 0x80\<close> is \<^verbatim>\<open>b & 0x3F\<close>.
\<close>

definition isHigh :: "nat \<Rightarrow> bool" where
  "isHigh u = (0xD800 \<le> u \<and> u \<le> 0xDBFF)"

definition isLow :: "nat \<Rightarrow> bool" where
  "isLow u = (0xDC00 \<le> u \<and> u \<le> 0xDFFF)"

fun codePoints :: "nat list \<Rightarrow> nat list" where
  "codePoints [] = []"
| "codePoints [u] = (if isHigh u \<or> isLow u then [0xFFFD] else [u])"
| "codePoints (u # v # us) =
    (if isHigh u \<and> isLow v
     then (0x10000 + (u - 0xD800) * 1024 + (v - 0xDC00)) # codePoints us
     else if isHigh u \<or> isLow u then 0xFFFD # codePoints (v # us)
     else u # codePoints (v # us))"

definition encodeCodePoint :: "nat \<Rightarrow> nat list" where
  "encodeCodePoint c =
    (if c < 0x80 then [c]
     else if c < 0x800 then [0xC0 + c div 64, 0x80 + c mod 64]
     else if c < 0x10000 then [0xE0 + c div 4096, 0x80 + c div 64 mod 64, 0x80 + c mod 64]
     else [0xF0 + c div 262144, 0x80 + c div 4096 mod 64, 0x80 + c div 64 mod 64,
           0x80 + c mod 64])"

definition utf8Encode :: "jsstring \<Rightarrow> bytes" where
  "utf8Encode s = map of_nat (concat (map encodeCodePoint (codePoints (map unat s))))"

type_synonym decoder = "nat \<times> nat \<times> nat \<times> nat"

definition decoderStart :: decoder where
  "decoderStart = (0, 0, 0x80, 0xBF)"

definition firstByte :: "nat \<Rightarrow> nat list \<times> decoder" where
  "firstByte b =
    (if b \<le> 0x7F then ([b], decoderStart)
     else if 0xC2 \<le> b \<and> b \<le> 0xDF then ([], (b - 0xC0, 1, 0x80, 0xBF))
     else if 0xE0 \<le> b \<and> b \<le> 0xEF then
       ([], (b - 0xE0, 2, if b = 0xE0 then 0xA0 else 0x80, if b = 0xED then 0x9F else 0xBF))
     else if 0xF0 \<le> b \<and> b \<le> 0xF4 then
       ([], (b - 0xF0, 3, if b = 0xF0 then 0x90 else 0x80, if b = 0xF4 then 0x8F else 0xBF))
     else ([0xFFFD], decoderStart))"

fun decodeBytes :: "decoder \<Rightarrow> nat list \<Rightarrow> nat list" where
  "decodeBytes (cp, needed, lower, upper) [] = (if needed \<noteq> 0 then [0xFFFD] else [])"
| "decodeBytes (cp, needed, lower, upper) (b # bs) =
    (if needed = 0 then
       fst (firstByte b) @ decodeBytes (snd (firstByte b)) bs
     else if \<not> (lower \<le> b \<and> b \<le> upper) then
       0xFFFD # fst (firstByte b) @ decodeBytes (snd (firstByte b)) bs
     else if needed = 1 then
       (cp * 64 + (b - 0x80)) # decodeBytes decoderStart bs
     else
       decodeBytes (cp * 64 + (b - 0x80), needed - 1, 0x80, 0xBF) bs)"

definition codeUnits :: "nat \<Rightarrow> nat list" where
  "codeUnits c =
    (if c < 0x10000 then [c]
     else [0xD800 + (c - 0x10000) div 1024, 0xDC00 + (c - 0x10000) mod 1024])"

definition utf8Decode :: "bytes \<Rightarrow> jsstring" where
  "utf8Decode bs = map of_nat (concat (map codeUnits (decodeBytes decoderStart (map unat bs))))"

text \<open>A scalar value is a code point that is not a surrogate. A string is well formed when
  every surrogate in it is half of a pair.\<close>

definition scalar :: "nat \<Rightarrow> bool" where
  "scalar c = (c < 0x110000 \<and> \<not> (0xD800 \<le> c \<and> c \<le> 0xDFFF))"

fun pairedSurrogates :: "nat list \<Rightarrow> bool" where
  "pairedSurrogates [] = True"
| "pairedSurrogates [u] = (\<not> isHigh u \<and> \<not> isLow u)"
| "pairedSurrogates (u # v # us) =
    (if isHigh u then isLow v \<and> pairedSurrogates us
     else \<not> isLow u \<and> pairedSurrogates (v # us))"

definition wellFormed :: "jsstring \<Rightarrow> bool" where
  "wellFormed s = pairedSurrogates (map unat s)"

section \<open>Encryption of tokens\<close>

text \<open>
  The two functions of ``Encrypt Tokens at Rest''. The AES-256-CBC primitive of
  \<^verbatim>\<open>node:crypto\<close> is a parameter: \<open>cipher key iv m\<close> is \<^verbatim>\<open>update\<close> followed by
  \<^verbatim>\<open>final\<close>, \<open>decipher key iv c\<close> the same for decryption, \<open>None\<close> when \<^verbatim>\<open>final\<close>
  throws. \<^verbatim>\<open>createCipheriv\<close> and \<^verbatim>\<open>createDecipheriv\<close> throw unless the key has 32 bytes
  and the IV 16. The argument \<open>iv\<close> of \<open>encryptToken\<close> is the value drawn by
  \<^verbatim>\<open>crypto.randomBytes(IV_LENGTH)\<close>.
\<close>

record crypto =
  ENCRYPTION_KEY :: jsstring
  cipher :: "bytes \<Rightarrow> bytes \<Rightarrow> bytes \<Rightarrow> bytes"
  decipher :: "bytes \<Rightarrow> bytes \<Rightarrow> bytes \<Rightarrow> bytes option"

definition IV_LENGTH :: nat where
  "IV_LENGTH = 16"

definition encryptToken :: "crypto \<Rightarrow> bytes \<Rightarrow> jsstring \<Rightarrow> exn + jsstring" where
  "encryptToken C iv token =
    (let key = fromHex (ENCRYPTION_KEY C) in
     if length key \<noteq> 32 \<or> length iv \<noteq> 16 then Inl CryptoError
     else
       let encrypted = cipher C key iv (utf8Encode token)
       in Inr (toHex iv @ colon # toHex encrypted))"

definition decryptToken :: "crypto \<Rightarrow> jsstring \<Rightarrow> exn + jsstring" where
  "decryptToken C encryptedToken =
    (case split_str colon encryptedToken of
       [] \<Rightarrow> Inl TypeError
     | first # parts \<Rightarrow>
         let iv = fromHex first;
             encrypted = fromHex (join_str colon parts);
             key = fromHex (ENCRYPTION_KEY C)
         in
         if length key \<noteq> 32 \<or> length iv \<noteq> 16 then Inl CryptoError
         else
           (case decipher C key iv encrypted of
              None \<Rightarrow> Inl CryptoError
            | Some decrypted \<Rightarrow> Inr (utf8Decode decrypted)))"

text \<open>What AES-256-CBC with its default padding gives for the configured key, an IV and a
  plaintext: decryption undoes encryption, and the ciphertext is the plaintext padded to
  the next multiple of the block size.\<close>

definition decryptsBack :: "crypto \<Rightarrow> bytes \<Rightarrow> bytes \<Rightarrow> bool" where
  "decryptsBack C iv m =
    (decipher C (fromHex (ENCRYPTION_KEY C)) iv (cipher C (fromHex (ENCRYPTION_KEY C)) iv m)
       = Some m)"

definition paddedLength :: "crypto \<Rightarrow> bytes \<Rightarrow> bytes \<Rightarrow> bool" where
  "paddedLength C iv m =
    (length (cipher C (fromHex (ENCRYPTION_KEY C)) iv m) = 16 * (length m div 16 + 1))"

text \<open>The string \<open>encryptToken\<close> returns when the key and the IV have the right
  lengths.\<close>

definition encryptedForm :: "crypto \<Rightarrow> bytes \<Rightarrow> jsstring \<Rightarrow> jsstring" where
  "encryptedForm C iv token =
    toHex iv @ colon # toHex (cipher C (fromHex (ENCRYPTION_KEY C)) iv (utf8Encode token))"

text \<open>\<^verbatim>\<open>decryptToken(encryptToken(token))\<close>, with the IV that the encryption draws.\<close>

definition decryptEncrypted :: "crypto \<Rightarrow> bytes \<Rightarrow> jsstring \<Rightarrow> exn + jsstring" where
  "decryptEncrypted C iv token =
    (case encryptToken C iv token of
       Inl e \<Rightarrow> Inl e
     | Inr encryptedToken \<Rightarrow> decryptToken C encryptedToken)"

section \<open>The connection table\<close>

text \<open>
  \<^verbatim>\<open>lib/db/connections.ts\<close>. \<open>saveConnection\<close> takes, besides the data, what the call
  draws: the row id of \<^verbatim>\<open>crypto.randomUUID()\<close>, the IVs of its two encryptions and the
  database clock that fills \<^verbatim>\<open>connected_at\<close>. The insert fails on a primary key that is
  already in the table. \<open>getConnections\<close> selects the active rows of the user and decrypts
  the access token of each; one failing decryption fails the call.
\<close>

record draws =
  randomUUID :: string
  ivAccess :: bytes
  ivRefresh :: bytes
  dbNow :: int

definition insertRow :: "SocialConnection \<Rightarrow> table \<Rightarrow> exn + table" where
  "insertRow row db = (if id' row \<in> set (map id' db) then Inl DbError else Inr (db @ [row]))"

text \<open>The expression \<^verbatim>\<open>data.refreshToken ? encryptToken(data.refreshToken) : null\<close>.\<close>

definition encryptRefresh :: "crypto \<Rightarrow> bytes \<Rightarrow> jsstring option \<Rightarrow> exn + jsstring option" where
  "encryptRefresh C iv token =
    (case token of
       None \<Rightarrow> Inr None
     | Some t \<Rightarrow>
         if t = [] then Inr None
         else (case encryptToken C iv t of
                 Inl e \<Rightarrow> Inl e
               | Inr encrypted \<Rightarrow> Inr (Some encrypted)))"

definition saveConnection :: "crypto \<Rightarrow> draws \<Rightarrow> ConnectionData \<Rightarrow> table \<Rightarrow> exn + table" where
  "saveConnection C d data db =
    (case encryptToken C (ivAccess d) (ConnectionData.accessToken data) of
       Inl e \<Rightarrow> Inl e
     | Inr encryptedAccess \<Rightarrow>
         (case encryptRefresh C (ivRefresh d) (ConnectionData.refreshToken data) of
            Inl e \<Rightarrow> Inl e
          | Inr encryptedRefresh \<Rightarrow>
              insertRow
                \<lparr>userId = ConnectionData.userId data,
                 platform = ConnectionData.platform data,
                 accessToken = encryptedAccess,
                 refreshToken = encryptedRefresh,
                 tokenExpiresAt = ConnectionData.tokenExpiresAt data,
                 platformUserId = ConnectionData.platformUserId data,
                 platformUsername = ConnectionData.platformUsername data,
                 platformProfileImage = ConnectionData.platformProfileImage data,
                 scopes = ConnectionData.scopes data,
                 id' = randomUUID d,
                 isActive = True,
                 connectedAt = Some (dbNow d),
                 lastRefreshedAt = None\<rparr>
                db))"

text \<open>The row \<open>saveConnection\<close> inserts when both encryptions succeed.\<close>

definition insertedRow :: "crypto \<Rightarrow> draws \<Rightarrow> ConnectionData \<Rightarrow> SocialConnection" where
  "insertedRow C d data =
    \<lparr>userId = ConnectionData.userId data,
     platform = ConnectionData.platform data,
     accessToken = encryptedForm C (ivAccess d) (ConnectionData.accessToken data),
     refreshToken =
       (case ConnectionData.refreshToken data of
          None \<Rightarrow> None
        | Some t \<Rightarrow> if t = [] then None else Some (encryptedForm C (ivRefresh d) t)),
     tokenExpiresAt = ConnectionData.tokenExpiresAt data,
     platformUserId = ConnectionData.platformUserId data,
     platformUsername = ConnectionData.platformUsername data,
     platformProfileImage = ConnectionData.platformProfileImage data,
     scopes = ConnectionData.scopes data,
     id' = randomUUID d,
     isActive = True,
     connectedAt = Some (dbNow d),
     lastRefreshedAt = None\<rparr>"

fun decryptAll :: "crypto \<Rightarrow> table \<Rightarrow> exn + table" where
  "decryptAll C [] = Inr []"
| "decryptAll C (conn # connections) =
    (case decryptToken C (ConnectionData.accessToken conn) of
       Inl e \<Rightarrow> Inl e
     | Inr token \<Rightarrow>
         (case decryptAll C connections of
            Inl e \<Rightarrow> Inl e
          | Inr rest \<Rightarrow> Inr (conn\<lparr>ConnectionData.accessToken := token\<rparr> # rest)))"

definition getConnections :: "crypto \<Rightarrow> table \<Rightarrow> string \<Rightarrow> exn + table" where
  "getConnections C db user =
    decryptAll C (filter (\<lambda>r. ConnectionData.userId r = user \<and> isActive r) db)"

section \<open>The OAuth routes\<close>

text \<open>
  A route answers with a JSON body or with a redirect that carries cookie instructions.
  A redirect target is a literal path, or a URL on which search parameters have been set
  in the order listed. Of the options of \<^verbatim>\<open>cookies.set\<close> only \<^verbatim>\<open>maxAge\<close> (in seconds) is
  kept.
\<close>

datatype cookie_op =
    SetCookie string string nat
  | DeleteCookie string

datatype location =
    Path string
  | Url string "(string \<times> string) list"

datatype response =
    JsonResponse nat string
  | Redirect location "cookie_op list"

definition cookieOps :: "response \<Rightarrow> cookie_op list" where
  "cookieOps r = (case r of JsonResponse code b \<Rightarrow> [] | Redirect target ops \<Rightarrow> ops)"

definition stateCookie :: "string \<Rightarrow> string" where
  "stateCookie platform' = ''oauth_state_'' @ platform'"

subsection \<open>Initiation\<close>

text \<open>
  \<^verbatim>\<open>app/api/auth/[platform]/route.ts\<close>; \<open>uuid\<close> is the value of \<^verbatim>\<open>crypto.randomUUID()\<close>.
  The route builds a first redirect, \<open>response\<close>, sets the state cookie on it, and then
  returns a second redirect built from \<open>authUrl\<close>.
\<close>

definition GET_initiate :: "(string \<Rightarrow> OAuthProvider option) \<Rightarrow> string \<Rightarrow> string \<Rightarrow> response" where
  "GET_initiate getProviderConfig platform' uuid =
    (case getProviderConfig platform' of
       None \<Rightarrow> JsonResponse 400 ''Invalid platform''
     | Some provider \<Rightarrow>
         let state = uuid;
             response = Redirect (Url (authorizationUrl provider) [])
                          [SetCookie (stateCookie platform') state 600];
             authUrl = Url (authorizationUrl provider)
                         [(''client_id'', clientId provider),
                          (''redirect_uri'', redirectUri provider),
                          (''response_type'', ''code''),
                          (''scope'', join_str (CHR '' '') (OAuthProvider.scopes provider)),
                          (''state'', state)]
         in Redirect authUrl [])"

subsection \<open>The browser's cookies\<close>





subsection \<open>Callback\<close>









section \<open>Sample values\<close>

text \<open>Concrete inputs on which the theorems below are run.\<close>

definition sample_providers :: "string \<Rightarrow> OAuthProvider option" where
  "sample_providers p =
    (if p = ''facebook''
     then Some (facebookProvider ''app-id'' ''app-secret'' ''https://example.test'')
     else None)"

definition sample_connection :: SocialConnection where
  "sample_connection =
    \<lparr>userId = ''u-1'', platform = ''facebook'',
     accessToken = [0x74, 0x31], refreshToken = Some [0x72, 0x31],
     tokenExpiresAt = Some 1000000, platformUserId = ''fb-77'',
     platformUsername = Some ''page'', platformProfileImage = None,
     scopes = [''pages_show_list''],
     id' = ''c-1'', isActive = True, connectedAt = Some 0, lastRefreshedAt = None\<rparr>"

definition sample_tokens :: OAuthTokens where
  "sample_tokens =
    \<lparr>OAuthTokens.accessToken = [0x74, 0x32], refreshToken = None, expiresIn = Some 3600,
     tokenType = Some ''bearer''\<rparr>"

text \<open>A store update for the runs below: it replaces the three patched fields of the row
  with the given id.\<close>

definition sample_update :: "string \<Rightarrow> ConnectionPatch \<Rightarrow> table \<Rightarrow> exn + table" where
  "sample_update i patch db =
    Inr (map (\<lambda>r. if id' r = i
                   then r\<lparr>ConnectionData.accessToken := ConnectionPatch.accessToken patch,
                          ConnectionData.refreshToken := ConnectionPatch.refreshToken patch,
                          ConnectionData.tokenExpiresAt :=
                            ConnectionPatch.tokenExpiresAt patch\<rparr>
                   else r) db)"

text \<open>A stand-in for the block cipher in the runs below. It is not AES: it adds 7 to every
  byte and pads to the next multiple of 16 bytes the way PKCS#7 does, which is all the
  runs need of it.\<close>

definition sample_pad :: "bytes \<Rightarrow> bytes" where
  "sample_pad m =
    m @ replicate (16 - length m mod 16) (of_nat (16 - length m mod 16))"

definition sample_unpad :: "bytes \<Rightarrow> bytes option" where
  "sample_unpad c =
    (if c = [] \<or> length c mod 16 \<noteq> 0 then None
     else
       let n = unat (last c) in
       if n = 0 \<or> 16 < n \<or> drop (length c - n) c \<noteq> replicate n (last c) then None
       else Some (take (length c - n) c))"

definition sample_crypto :: crypto where
  "sample_crypto =
    \<lparr>ENCRYPTION_KEY =
       js ''00112233445566778899aabbccddeeff00112233445566778899aabbccddeeff'',
     cipher = (\<lambda>key iv m. sample_pad (map (\<lambda>b. b + 7) m)),
     decipher = (\<lambda>key iv c. map_option (map (\<lambda>b. b - 7)) (sample_unpad c))\<rparr>"

definition sample_iv :: bytes where
  "sample_iv = [0, 1, 2, 3, 4, 5, 6, 7, 8, 9, 10, 11, 12, 13, 14, 15]"

definition sample_iv' :: bytes where
  "sample_iv' = [16, 17, 18, 19, 20, 21, 22, 23, 24, 25, 26, 27, 28, 29, 30, 31]"

definition sample_draws :: draws where
  "sample_draws =
    \<lparr>randomUUID = ''c-1'', ivAccess = sample_iv, ivRefresh = sample_iv', dbNow = 5\<rparr>"

definition sample_data :: ConnectionData where
  "sample_data =
    \<lparr>userId = ''u-1'', platform = ''facebook'',
     accessToken = js ''t1'', refreshToken = Some (js ''r1''),
     tokenExpiresAt = Some 3600000, platformUserId = ''fb-77'',
     platformUsername = Some ''page'', platformProfileImage = None,
     scopes = [''pages_manage_posts'', ''pages_read_engagement'', ''pages_show_list'']\<rparr>"

text \<open>The row that saving \<open>sample_data\<close> with \<open>sample_draws\<close> inserts, and a second
  save for the same user and platform.\<close>

definition sample_row :: SocialConnection where
  "sample_row = insertedRow sample_crypto sample_draws sample_data"

definition sample_draws' :: draws where
  "sample_draws' =
    \<lparr>randomUUID = ''c-2'', ivAccess = sample_iv', ivRefresh = sample_iv, dbNow = 9\<rparr>"

definition sample_data' :: ConnectionData where
  "sample_data' =
    sample_data\<lparr>ConnectionData.accessToken := js ''t2'',
                 ConnectionData.refreshToken := None,
                 ConnectionData.platformUserId := ''fb-78''\<rparr>"

definition sample_row' :: SocialConnection where
  "sample_row' = insertedRow sample_crypto sample_draws' sample_data'"




section \<open>Auxiliary facts\<close>

subsection \<open>Hexadecimal text and splitting\<close>

lemma unat_of_nat16: "k < 65536 \<Longrightarrow> unat (of_nat k :: 16 word) = k"
  by (simp add: unat_of_nat)

lemma unat_of_nat8: "k < 256 \<Longrightarrow> unat (of_nat k :: 8 word) = k"
  by (simp add: unat_of_nat)

lemma unat_hexDigit: "n < 16 \<Longrightarrow> unat (hexDigit n) = (if n < 10 then 48 + n else 87 + n)"
  unfolding hexDigit_def by (simp add: unat_of_nat16 del: of_nat_add)

lemma hexValue_hexDigit: "n < 16 \<Longrightarrow> hexValue (hexDigit n) = Some n"
  by (simp add: hexValue_def unat_hexDigit Let_def)

lemma hexDigit_not_colon: "n < 16 \<Longrightarrow> hexDigit n \<noteq> colon"
proof
  assume n: "n < 16" and "hexDigit n = colon"
  then have "unat (hexDigit n) = unat colon" by simp
  with n show False by (simp add: unat_hexDigit colon_def split: if_splits)
qed

lemma unat_byte: "unat (b :: 8 word) < 256"
  using unsigned_less[of b] by simp

lemma high_nibble: "unat (b :: 8 word) div 16 < 16"
  using unat_byte[of b] by simp

lemma fromHex_toHex: "fromHex (toHex bs) = bs"
  by (induction bs) (simp_all add: hexValue_hexDigit high_nibble)

lemma colon_notin_toHex: "colon \<notin> set (toHex bs)"
proof (induction bs)
  case Nil
  show ?case by simp
next
  case (Cons b bs)
  have "hexDigit (unat b div 16) \<noteq> colon" "hexDigit (unat b mod 16) \<noteq> colon"
    by (simp_all add: hexDigit_not_colon high_nibble)
  with Cons show ?case by auto
qed

lemma split_str_no_sep: "sep \<notin> set s \<Longrightarrow> split_str sep s = [s]"
  by (induction s) (auto split: list.splits)

lemma split_str_first: "sep \<notin> set a \<Longrightarrow> split_str sep (a @ sep # b) = a # split_str sep b"
  by (induction a) (auto split: list.splits)

lemma split_encrypted:
  "split_str colon (toHex iv @ colon # toHex ct) = [toHex iv, toHex ct]"
  by (simp add: split_str_first split_str_no_sep colon_notin_toHex)


lemma div_4096: "(c::nat) div 4096 = c div 64 div 64"
  by (simp add: div_mult2_eq[symmetric])

lemma div_262144: "(c::nat) div 262144 = c div 64 div 64 div 64"
  by (simp add: div_mult2_eq[symmetric])

lemma decode_encode_1:
  assumes "c < 0x80"
  shows "decodeBytes decoderStart (encodeCodePoint c @ rest) = c # decodeBytes decoderStart rest"
  using assms by (simp add: encodeCodePoint_def decoderStart_def firstByte_def)

lemma decode_encode_2:
  assumes "0x80 \<le> c" "c < 0x800"
  shows "decodeBytes decoderStart (encodeCodePoint c @ rest) = c # decodeBytes decoderStart rest"
proof -
  have a: "c div 64 < 32" "2 \<le> c div 64" using assms by simp_all
  have m: "c mod 64 \<le> 63" using mod_less_divisor[of 64 c] by linarith
  show ?thesis using assms a m
    by (simp add: encodeCodePoint_def decoderStart_def firstByte_def)
qed

lemma decode_encode_3:
  assumes "0x800 \<le> c" "c < 0x10000" "\<not> (0xD800 \<le> c \<and> c \<le> 0xDFFF)"
  shows "decodeBytes decoderStart (encodeCodePoint c @ rest) = c # decodeBytes decoderStart rest"
proof -
  define d where "d = c div 64"
  have d: "32 \<le> d" "d < 1024" "c div 4096 = d div 64"
    using assms by (simp_all add: d_def div_4096)
  have s: "\<not> (864 \<le> d \<and> d < 896)"
    using assms by (auto simp: d_def less_eq_div_iff_mult_less_eq div_less_iff_less_mult)
  have dm: "d = d div 64 * 64 + d mod 64" by simp
  have e: "d div 64 < 16" using d by simp
  have lo: "d div 64 = 0 \<Longrightarrow> 32 \<le> d mod 64" using d by simp
  have hi: "d div 64 = 13 \<Longrightarrow> d mod 64 \<le> 31"
  proof -
    assume "d div 64 = 13"
    with dm have "d = 832 + d mod 64" by simp
    moreover have "d mod 64 < 64" by simp
    ultimately show ?thesis using s by linarith
  qed
  have enc: "encodeCodePoint c = [224 + d div 64, 128 + d mod 64, 128 + c mod 64]"
    using assms d by (simp add: encodeCodePoint_def d_def)
  have recompose: "(d div 64 * 64 + d mod 64) * 64 + c mod 64 = c"
    by (simp add: d_def)
  have m: "c mod 64 \<le> 63" "d mod 64 \<le> 63"
    using mod_less_divisor[of 64 c] mod_less_divisor[of 64 d] by linarith+
  have z: "d div 64 = 0 \<Longrightarrow> d \<le> 63" using dm by simp
  show ?thesis using e lo hi recompose m z
    by (simp add: enc decoderStart_def firstByte_def)
qed

lemma decode_encode_4:
  assumes "0x10000 \<le> c" "c < 0x110000"
  shows "decodeBytes decoderStart (encodeCodePoint c @ rest) = c # decodeBytes decoderStart rest"
proof -
  define d where "d = c div 64"
  define e where "e = d div 64"
  have e: "16 \<le> e" "e < 272" "c div 4096 = e" "c div 262144 = e div 64"
    using assms by (simp_all add: d_def e_def div_4096 div_262144)
  have f: "e div 64 \<le> 4" using e by simp
  have lo: "e div 64 = 0 \<Longrightarrow> 16 \<le> e mod 64" using e by simp
  have dm: "e = e div 64 * 64 + e mod 64" by simp
  have hi: "e div 64 = 4 \<Longrightarrow> e mod 64 \<le> 15"
  proof -
    assume "e div 64 = 4"
    with dm have "e = 256 + e mod 64" by simp
    then show ?thesis using e by linarith
  qed
  have enc: "encodeCodePoint c = [240 + e div 64, 128 + e mod 64, 128 + d mod 64, 128 + c mod 64]"
    using assms e by (simp add: encodeCodePoint_def d_def)
  have recompose: "((e div 64 * 64 + e mod 64) * 64 + d mod 64) * 64 + c mod 64 = c"
    by (simp add: d_def e_def)
  have m: "c mod 64 \<le> 63" "d mod 64 \<le> 63" "e mod 64 \<le> 63"
    using mod_less_divisor[of 64 c] mod_less_divisor[of 64 d] mod_less_divisor[of 64 e]
    by linarith+
  have z: "e div 64 = 0 \<Longrightarrow> e \<le> 63" using dm by simp
  show ?thesis using f lo hi recompose m z
    by (simp add: enc decoderStart_def firstByte_def)
qed

lemma decode_encode:
  "scalar c \<Longrightarrow>
   decodeBytes decoderStart (encodeCodePoint c @ rest) = c # decodeBytes decoderStart rest"
  using decode_encode_1[of c rest] decode_encode_2[of c rest] decode_encode_3[of c rest]
    decode_encode_4[of c rest]
  unfolding scalar_def by linarith

lemma decode_concat:
  "\<forall>c \<in> set cs. scalar c \<Longrightarrow>
   decodeBytes decoderStart (concat (map encodeCodePoint cs)) = cs"
  by (induction cs) (simp_all add: decode_encode, simp add: decoderStart_def)

lemma encodeCodePoint_bytes: "c < 0x110000 \<Longrightarrow> \<forall>b \<in> set (encodeCodePoint c). b < 256"
proof -
  assume c: "c < 0x110000"
  have m: "c mod 64 \<le> 63" "c div 64 mod 64 \<le> 63" "c div 4096 mod 64 \<le> 63"
    using mod_less_divisor[of 64 c] mod_less_divisor[of 64 "c div 64"]
      mod_less_divisor[of 64 "c div 4096"] by linarith+
  have d: "c < 2048 \<Longrightarrow> c div 64 < 64" "c < 65536 \<Longrightarrow> c div 4096 < 32"
    "c div 262144 < 16"
    using c by (simp_all add: div_less_iff_less_mult)
  show ?thesis using c m d by (simp add: encodeCodePoint_def)
qed

lemma codePoints_paired:
  "pairedSurrogates us \<Longrightarrow> \<forall>u \<in> set us. u < 65536 \<Longrightarrow>
   (\<forall>c \<in> set (codePoints us). scalar c) \<and> concat (map codeUnits (codePoints us)) = us"
proof (induction us rule: pairedSurrogates.induct)
  case 1
  show ?case by simp
next
  case (2 u)
  then show ?case by (auto simp: scalar_def isHigh_def isLow_def codeUnits_def)
next
  case (3 u v us)
  show ?case
  proof (cases "isHigh u")
    case True
    with 3 have v: "isLow v" and w: "pairedSurrogates us" and b: "\<forall>u \<in> set us. u < 65536" by simp_all
    define c where "c = 0x10000 + (u - 0xD800) * 1024 + (v - 0xDC00)"
    have r: "u - 0xD800 < 1024" "v - 0xDC00 < 1024" "0xD800 \<le> u" "0xDC00 \<le> v"
      using True v by (auto simp: isHigh_def isLow_def)
    have c1: "scalar c" using r by (auto simp: c_def scalar_def)
    define a b where "a = u - 0xD800" and "b = v - 0xDC00"
    have "c - 0x10000 = a * 1024 + b" by (simp add: c_def a_def b_def)
    moreover have "b < 1024" using r by (simp add: b_def)
    ultimately have "(c - 0x10000) div 1024 = a" "(c - 0x10000) mod 1024 = b" by simp_all
    then have "(c - 0x10000) div 1024 = u - 0xD800" "(c - 0x10000) mod 1024 = v - 0xDC00"
      by (simp_all add: a_def b_def)
    then have c2: "codeUnits c = [u, v]" using r by (auto simp: codeUnits_def c_def)
    from 3(1)[OF True] v w b have ih: "(\<forall>c \<in> set (codePoints us). scalar c) \<and> concat (map codeUnits (codePoints us)) = us"
      by simp
    show ?thesis using True v ih c1 c2 by (simp add: c_def)
  next
    case False
    with 3 have l: "\<not> isLow u" and w: "pairedSurrogates (v # us)" and b: "\<forall>u \<in> set (v # us). u < 65536" "u < 65536"
      by simp_all
    from 3(2)[OF False] w b have ih: "(\<forall>c \<in> set (codePoints (v # us)). scalar c) \<and> concat (map codeUnits (codePoints (v # us))) = v # us"
      by simp
    have "scalar u" "codeUnits u = [u]" using False l b by (auto simp: scalar_def isHigh_def isLow_def codeUnits_def)
    then show ?thesis using False l ih by simp
  qed
qed

lemma unat_of_nat_bytes: "\<forall>b \<in> set bs. b < 256 \<Longrightarrow> map unat (map of_nat bs :: 8 word list) = bs"
  by (induction bs) (simp_all add: unat_of_nat8)

lemma scalar_bound: "scalar c \<Longrightarrow> c < 0x110000"
  by (simp add: scalar_def)

lemma utf8_roundtrip:
  assumes "wellFormed s"
  shows "utf8Decode (utf8Encode s) = s"
proof -
  let ?us = "map unat s"
  have "unat w < 65536" for w :: "16 word"
    using unsigned_less[of w] by simp
  then have bound: "\<forall>u \<in> set ?us. u < 65536" by auto
  from assms have "pairedSurrogates ?us" by (simp add: wellFormed_def)
  from codePoints_paired[OF this bound]
  have sc: "\<forall>c \<in> set (codePoints ?us). scalar c"
    and cu: "concat (map codeUnits (codePoints ?us)) = ?us" by simp_all
  have "\<forall>b \<in> set (concat (map encodeCodePoint (codePoints ?us))). b < 256"
    using sc encodeCodePoint_bytes scalar_bound by fastforce
  then have "map unat (utf8Encode s) = concat (map encodeCodePoint (codePoints ?us))"
    unfolding utf8Encode_def by (rule unat_of_nat_bytes)
  then have "utf8Decode (utf8Encode s) = map of_nat ?us"
    by (simp add: utf8Decode_def decode_concat[OF sc] cu)
  then show ?thesis by (simp add: comp_def)
qed

subsection \<open>Encrypted tokens and the table\<close>

lemma length_toHex: "length (toHex bs) = 2 * length bs"
  by (induction bs) simp_all

lemma encodeCodePoint_nonempty: "1 \<le> length (encodeCodePoint c)"
  by (simp add: encodeCodePoint_def)

lemma length_codePoints_encoded:
  "length us \<le> length (concat (map encodeCodePoint (codePoints us)))"
proof (induction us rule: codePoints.induct)
  case 1
  show ?case by simp
next
  case (2 u)
  show ?case using encodeCodePoint_nonempty[of u] encodeCodePoint_nonempty[of "0xFFFD"]
    by (simp del: One_nat_def)
next
  case (3 u v us)
  show ?case
  proof (cases "isHigh u \<and> isLow v")
    case True
    have "length (encodeCodePoint (0x10000 + (u - 0xD800) * 1024 + (v - 0xDC00))) = 4"
      by (simp add: encodeCodePoint_def)
    with True 3 show ?thesis by simp
  next
    case False
    with 3 encodeCodePoint_nonempty[of u] encodeCodePoint_nonempty[of "0xFFFD"] show ?thesis
      by (auto simp del: One_nat_def)
  qed
qed

lemma length_utf8Encode: "length s \<le> length (utf8Encode s)"
  using length_codePoints_encoded[of "map unat s"] by (simp add: utf8Encode_def)

lemma encryptToken_eq:
  assumes "length (fromHex (ENCRYPTION_KEY C)) = 32" and "length iv = 16"
  shows "encryptToken C iv token =
         Inr (toHex iv @ colon # toHex (cipher C (fromHex (ENCRYPTION_KEY C)) iv (utf8Encode token)))"
  using assms by (simp add: encryptToken_def Let_def)

lemma decryptToken_encrypted:
  assumes "length (fromHex (ENCRYPTION_KEY C)) = 32" and "length iv = 16"
  shows "decryptToken C (toHex iv @ colon # toHex ct) =
         (case decipher C (fromHex (ENCRYPTION_KEY C)) iv ct of
            None \<Rightarrow> Inl CryptoError
          | Some m \<Rightarrow> Inr (utf8Decode m))"
  using assms by (simp add: decryptToken_def split_encrypted fromHex_toHex Let_def)

lemma decryptEncrypted_eq:
  assumes "length (fromHex (ENCRYPTION_KEY C)) = 32" and "length iv = 16"
    and "decryptsBack C iv (utf8Encode token)"
  shows "decryptEncrypted C iv token = Inr (utf8Decode (utf8Encode token))"
  using assms
  by (simp add: decryptEncrypted_def encryptToken_eq decryptToken_encrypted decryptsBack_def)

lemma next_block: "(k::nat) + (16 - k mod 16) = 16 * (k div 16 + 1)"
proof -
  define q r where "q = k div 16" and "r = k mod 16"
  have "k = 16 * q + r" "r < 16" by (simp_all add: q_def r_def)
  then have "k + (16 - r) = 16 * (q + 1)" by simp
  then show ?thesis by (simp add: q_def r_def)
qed

lemma below_next_block: "(n::nat) < 16 * (n div 16 + 1)"
  using next_block[of n] mod_less_divisor[of 16 n] by simp

lemma encrypted_differs:
  assumes "paddedLength C iv (utf8Encode token)"
  shows "toHex iv @ colon # toHex (cipher C (fromHex (ENCRYPTION_KEY C)) iv (utf8Encode token))
         \<noteq> token"
proof -
  let ?m = "utf8Encode token"
  let ?ct = "cipher C (fromHex (ENCRYPTION_KEY C)) iv ?m"
  have "length ?m < 16 * (length ?m div 16 + 1)" by (rule below_next_block)
  with assms have "length ?m < length ?ct" by (simp add: paddedLength_def)
  with length_utf8Encode[of token]
  have "length token < length (toHex iv @ colon # toHex ?ct)"
    by (simp add: length_toHex)
  then have "length (toHex iv @ colon # toHex ?ct) \<noteq> length token" by simp
  then show ?thesis by (rule contrapos_nn) (rule arg_cong)
qed

lemma decryptAll_append:
  "decryptAll C (xs @ ys) =
    (case decryptAll C xs of
       Inl e \<Rightarrow> Inl e
     | Inr as \<Rightarrow> (case decryptAll C ys of Inl e \<Rightarrow> Inl e | Inr bs \<Rightarrow> Inr (as @ bs)))"
  by (induction xs) (auto split: sum.splits)

lemma getConnections_append:
  "getConnections C (db @ [r]) user =
    (case getConnections C db user of
       Inl e \<Rightarrow> Inl e
     | Inr listed \<Rightarrow>
         if ConnectionData.userId r = user \<and> isActive r then
           (case decryptToken C (ConnectionData.accessToken r) of
              Inl e \<Rightarrow> Inl e
            | Inr token \<Rightarrow> Inr (listed @ [r\<lparr>ConnectionData.accessToken := token\<rparr>]))
         else Inr listed)"
  by (auto simp: getConnections_def decryptAll_append split: sum.splits)

subsection \<open>The stand-in cipher and the insert\<close>

lemma sample_key: "length (fromHex (ENCRYPTION_KEY sample_crypto)) = 32"
  by (simp add: sample_crypto_def js_def hexValue_def)

lemma pad_length_mod: "((k::nat) + (16 - k mod 16)) mod 16 = 0"
  by (simp only: next_block mod_mult_self1_is_0)

lemma sample_unpad_pad: "sample_unpad (sample_pad m) = Some m"
proof -
  define n where "n = 16 - length m mod 16"
  have n: "1 \<le> n" "n \<le> 16" by (simp_all add: n_def)
  have p: "sample_pad m = m @ replicate n (of_nat n)" by (simp add: sample_pad_def n_def)
  have l: "last (m @ replicate n (of_nat n :: 8 word)) = of_nat n" using n by (cases n) simp_all
  have u: "unat (of_nat n :: 8 word) = n" using n by (simp add: unat_of_nat8)
  have z: "(length m + n) mod 16 = 0" unfolding n_def by (rule pad_length_mod)
  show ?thesis using n z unfolding p sample_unpad_def l Let_def u by auto
qed

lemma sample_decryptsBack: "decryptsBack sample_crypto iv m"
  by (simp add: decryptsBack_def sample_crypto_def sample_unpad_pad comp_def)

lemma sample_paddedLength: "paddedLength sample_crypto iv m"
  using next_block[of "length m"]
  by (simp add: paddedLength_def sample_crypto_def sample_pad_def)

lemma encryptRefresh_eq:
  assumes "length (fromHex (ENCRYPTION_KEY C)) = 32" and "length iv = 16"
  shows "encryptRefresh C iv token =
         Inr (case token of None \<Rightarrow> None
              | Some t \<Rightarrow> if t = [] then None else Some (encryptedForm C iv t))"
  using assms by (simp add: encryptRefresh_def encryptToken_eq encryptedForm_def split: option.splits)

lemma saveConnection_eq:
  assumes "length (fromHex (ENCRYPTION_KEY C)) = 32"
    and "length (ivAccess d) = 16" and "length (ivRefresh d) = 16"
    and "randomUUID d \<notin> set (map id' db)"
  shows "saveConnection C d data db = Inr (db @ [insertedRow C d data])"
  using assms
  by (simp add: saveConnection_def encryptToken_eq encryptRefresh_eq insertRow_def
      insertedRow_def encryptedForm_def)

lemma saveConnection_Inr:
  assumes "saveConnection C d data db = Inr db'"
  shows "db' = db @ [insertedRow C d data]"
  using assms
  by (auto simp: saveConnection_def encryptToken_def encryptRefresh_def insertRow_def
      insertedRow_def encryptedForm_def Let_def split: sum.splits option.splits if_splits)

lemma decrypt_encryptedForm:
  assumes "length (fromHex (ENCRYPTION_KEY C)) = 32" and "length iv = 16"
    and "decryptsBack C iv (utf8Encode token)"
  shows "decryptToken C (encryptedForm C iv token) = Inr (utf8Decode (utf8Encode token))"
  using assms by (simp add: encryptedForm_def decryptToken_encrypted decryptsBack_def)

subsection \<open>Listing after an insert\<close>

lemma wellFormed_ascii: "\<forall>c \<in> set s. of_char c < (128::nat) \<Longrightarrow> wellFormed (js s)"
proof -
  have "\<forall>c \<in> set s. of_char c < (128::nat) \<Longrightarrow> pairedSurrogates (map unat (js s))"
  proof (induction "map unat (js s)" arbitrary: s rule: pairedSurrogates.induct)
    case 1
    then show ?case by simp
  next
    case (2 u)
    then obtain c where "s = [c]" by (auto simp: js_def)
    with 2 show ?case by (simp add: js_def isHigh_def isLow_def unat_of_nat16)
  next
    case (3 u v us)
    then obtain c s' where s: "s = c # s'" by (cases s) (auto simp: js_def)
    with 3(3,4) have u: "u = of_char c" "v # us = map unat (js s')" "u < 128"
      by (simp_all add: js_def unat_of_nat16)
    then have nh: "\<not> isHigh u" "\<not> isLow u" by (simp_all add: isHigh_def isLow_def)
    from 3(2)[OF nh(1) u(2)] 3(4) s have "pairedSurrogates (map unat (js s'))" by simp
    with u nh 3(3) show ?case by (metis pairedSurrogates.simps(3))
  qed
  then show "\<forall>c \<in> set s. of_char c < (128::nat) \<Longrightarrow> wellFormed (js s)"
    by (simp add: wellFormed_def)
qed

lemma listed_after_insert:
  assumes "length (fromHex (ENCRYPTION_KEY C)) = 32" and "length (ivAccess d) = 16"
    and "decryptsBack C (ivAccess d) (utf8Encode (ConnectionData.accessToken data))"
    and "wellFormed (ConnectionData.accessToken data)"
    and "getConnections C db (ConnectionData.userId data) = Inr listed"
  shows "getConnections C (db @ [insertedRow C d data]) (ConnectionData.userId data) =
         Inr (listed @ [(insertedRow C d data)
                          \<lparr>ConnectionData.accessToken := ConnectionData.accessToken data\<rparr>])"
proof -
  have "decryptToken C (ConnectionData.accessToken (insertedRow C d data)) =
        Inr (ConnectionData.accessToken data)"
    using decrypt_encryptedForm[OF assms(1,2,3)] assms(4)
    by (simp add: insertedRow_def utf8_roundtrip)
  then show ?thesis using assms(5)
    by (simp add: getConnections_append) (simp add: insertedRow_def)
qed

lemma sample_save: "saveConnection sample_crypto sample_draws sample_data [] = Inr [sample_row]"
  using saveConnection_eq[of sample_crypto sample_draws "[]" sample_data]
  by (simp add: sample_key sample_draws_def sample_iv_def sample_iv'_def sample_row_def)

lemma sample_save': "saveConnection sample_crypto sample_draws' sample_data' [sample_row] =
    Inr [sample_row, sample_row']"
  using saveConnection_eq[of sample_crypto sample_draws' "[sample_row]" sample_data']
  by (simp add: sample_key sample_draws'_def sample_iv_def sample_iv'_def sample_row_def
      sample_row'_def insertedRow_def sample_draws_def)

lemma sample_listed:
  "getConnections sample_crypto [sample_row] ''u-1'' =
   Inr [sample_row\<lparr>ConnectionData.accessToken := js ''t1''\<rparr>]"
proof -
  have w: "wellFormed (ConnectionData.accessToken sample_data)"
    by (simp add: sample_data_def wellFormed_ascii)
  have g: "getConnections sample_crypto [] (ConnectionData.userId sample_data) = Inr []"
    by (simp add: getConnections_def)
  from listed_after_insert[OF sample_key _ sample_decryptsBack w g, of sample_draws]
  show ?thesis by (simp add: sample_draws_def sample_iv_def sample_row_def sample_data_def)
qed

lemma sample_listed':
  "getConnections sample_crypto [sample_row, sample_row'] ''u-1'' =
   Inr [sample_row\<lparr>ConnectionData.accessToken := js ''t1''\<rparr>,
        sample_row'\<lparr>ConnectionData.accessToken := js ''t2''\<rparr>]"
proof -
  have w: "wellFormed (ConnectionData.accessToken sample_data')"
    by (simp add: sample_data'_def wellFormed_ascii)
  have g: "getConnections sample_crypto [sample_row] (ConnectionData.userId sample_data') =
      Inr [sample_row\<lparr>ConnectionData.accessToken := js ''t1''\<rparr>]"
    using sample_listed by (simp add: sample_data'_def sample_data_def)
  from listed_after_insert[OF sample_key _ sample_decryptsBack w g, of sample_draws']
  show ?thesis
    by (simp add: sample_draws'_def sample_iv'_def sample_row'_def sample_data'_def
        sample_data_def)
qed

lemma decryptAll_platforms:
  "decryptAll C rows = Inr listed \<Longrightarrow>
   map platformUserId (filter (\<lambda>c. platform c = p) listed) =
   map platformUserId (filter (\<lambda>r. platform r = p) rows)"
  by (induction rows arbitrary: listed) (auto split: sum.splits)

subsection \<open>The routes on the sample world\<close>


lemma GET_initiate_returns_no_cookie:
  "cookieOps (GET_initiate getProviderConfig platform' uuid) = []"
  by (simp add: GET_initiate_def cookieOps_def Let_def split: option.splits)

section \<open>The claims\<close>

subsection \<open>C1: two saves for one user and platform\<close>

text \<open>
  Claim C1, as amended. \<open>saveConnection\<close> only inserts. After two successful saves for the
  same user and platform the table is the old table followed by the two new rows, both
  active; the rows it held before are untouched. When \<open>getConnections\<close> succeeds for that
  user, it lists for that platform two entries more than the user had active rows for it
  before, and the two new entries carry the data of the first and of the second call.
  The claim as stated fails: a save does not deactivate an earlier row, so two saves
  leave two active rows for the pair.
\<close>

theorem each_save_adds_an_active_row:
  assumes "saveConnection C d1 data1 db = Inr db1"
    and "saveConnection C d2 data2 db1 = Inr db2"
    and "ConnectionData.userId data1 = user" and "ConnectionData.userId data2 = user"
    and "platform data1 = p" and "platform data2 = p"
    and "getConnections C db2 user = Inr listed"
  shows "db2 = db @ [insertedRow C d1 data1, insertedRow C d2 data2]
       \<and> isActive (insertedRow C d1 data1) \<and> isActive (insertedRow C d2 data2)
       \<and> length (filter (\<lambda>c. platform c = p) listed) =
           length (filter (\<lambda>r. ConnectionData.userId r = user \<and> platform r = p \<and> isActive r) db)
           + 2
       \<and> map platformUserId (filter (\<lambda>c. platform c = p) listed) =
           map platformUserId
             (filter (\<lambda>r. ConnectionData.userId r = user \<and> platform r = p \<and> isActive r) db)
           @ [platformUserId data1, platformUserId data2]"
proof -
  let ?r1 = "insertedRow C d1 data1" and ?r2 = "insertedRow C d2 data2"
  from assms(1) have db1: "db1 = db @ [?r1]" by (rule saveConnection_Inr)
  from assms(2) have "db2 = db1 @ [?r2]" by (rule saveConnection_Inr)
  with db1 have db2: "db2 = db @ [?r1, ?r2]" by simp
  have f: "ConnectionData.userId ?r1 = user" "ConnectionData.userId ?r2 = user"
    "platform ?r1 = p" "platform ?r2 = p" "isActive ?r1" "isActive ?r2"
    "platformUserId ?r1 = platformUserId data1" "platformUserId ?r2 = platformUserId data2"
    using assms(3-6) by (simp_all add: insertedRow_def)
  from assms(7) have "decryptAll C (filter (\<lambda>r. ConnectionData.userId r = user \<and> isActive r) db2)
      = Inr listed" by (simp add: getConnections_def)
  from decryptAll_platforms[OF this, of p]
  have m: "map platformUserId (filter (\<lambda>c. platform c = p) listed) =
           map platformUserId
             (filter (\<lambda>r. ConnectionData.userId r = user \<and> platform r = p \<and> isActive r) db)
           @ [platformUserId data1, platformUserId data2]"
    using f by (simp add: db2 conj_commute conj_left_commute cong: conj_cong)
  from arg_cong[OF m, of length] have l: "length (filter (\<lambda>c. platform c = p) listed) =
      length (filter (\<lambda>r. ConnectionData.userId r = user \<and> platform r = p \<and> isActive r) db) + 2"
    by simp
  from db2 f(5,6) l m show ?thesis by simp
qed

theorem each_save_adds_an_active_row_witness:
  "saveConnection sample_crypto sample_draws sample_data [] = Inr [sample_row] \<and>
   saveConnection sample_crypto sample_draws' sample_data' [sample_row] =
     Inr [sample_row, sample_row'] \<and>
   ConnectionData.userId sample_data = ''u-1'' \<and> ConnectionData.userId sample_data' = ''u-1'' \<and>
   platform sample_data = ''facebook'' \<and> platform sample_data' = ''facebook'' \<and>
   getConnections sample_crypto [sample_row, sample_row'] ''u-1'' =
     Inr [sample_row\<lparr>ConnectionData.accessToken := js ''t1''\<rparr>,
          sample_row'\<lparr>ConnectionData.accessToken := js ''t2''\<rparr>] \<and>
   length (filter (\<lambda>c. platform c = ''facebook'')
             [sample_row\<lparr>ConnectionData.accessToken := js ''t1''\<rparr>,
              sample_row'\<lparr>ConnectionData.accessToken := js ''t2''\<rparr>]) = 2"
proof -
  have u: "ConnectionData.userId sample_data = ''u-1''"
    "ConnectionData.userId sample_data' = ''u-1''"
    "platform sample_data = ''facebook''" "platform sample_data' = ''facebook''"
    by (simp_all add: sample_data_def sample_data'_def)
  from each_save_adds_an_active_row[OF sample_save sample_save' u sample_listed']
  have "length (filter (\<lambda>c. platform c = ''facebook'')
             [sample_row\<lparr>ConnectionData.accessToken := js ''t1''\<rparr>,
              sample_row'\<lparr>ConnectionData.accessToken := js ''t2''\<rparr>]) = 2"
    by simp
  with sample_save sample_save' u sample_listed' show ?thesis by simp
qed

text \<open>Two saves for user \<^verbatim>\<open>u-1\<close> and Facebook into an empty table: both rows are listed.\<close>

theorem two_saves_two_active_rows:
  "saveConnection sample_crypto sample_draws sample_data [] = Inr [sample_row] \<and>
   saveConnection sample_crypto sample_draws' sample_data' [sample_row] =
     Inr [sample_row, sample_row'] \<and>
   ConnectionData.userId sample_data = ConnectionData.userId sample_data' \<and>
   platform sample_data = platform sample_data' \<and>
   getConnections sample_crypto [sample_row, sample_row'] ''u-1'' =
     Inr [sample_row\<lparr>ConnectionData.accessToken := js ''t1''\<rparr>,
          sample_row'\<lparr>ConnectionData.accessToken := js ''t2''\<rparr>] \<and>
   map platform [sample_row\<lparr>ConnectionData.accessToken := js ''t1''\<rparr>,
                 sample_row'\<lparr>ConnectionData.accessToken := js ''t2''\<rparr>] =
     [''facebook'', ''facebook''] \<and>
   map platformUserId [sample_row\<lparr>ConnectionData.accessToken := js ''t1''\<rparr>,
                       sample_row'\<lparr>ConnectionData.accessToken := js ''t2''\<rparr>] =
     [''fb-77'', ''fb-78'']"
  using sample_save sample_save' sample_listed'
  by (simp add: sample_data_def sample_data'_def sample_row_def sample_row'_def
      insertedRow_def)

subsection \<open>C2: presenting the issued state twice\<close>




subsection \<open>C3: save, then get\<close>

text \<open>
  Claim C3, as amended. Take a 32-byte key, 16-byte IVs, a fresh row id, a cipher that
  behaves as AES-256-CBC does on the two tokens, and a well-formed access token. Then
  \<open>saveConnection\<close> appends one row, and \<open>getConnections\<close> for the user lists what it
  listed before followed by that row with the access token decrypted. Every field of the
  listed entry is the field that was saved, except the refresh token: \<open>getConnections\<close>
  does not decrypt it and returns it as stored. At rest the row holds the access token
  and a non-empty refresh token only as the hexadecimal IV, a colon and the hexadecimal
  ciphertext, strings that differ from the plaintext; an absent or empty refresh token
  is stored as null. The claim as stated fails on the refresh token, which does not come
  back in plaintext.
\<close>

theorem save_then_get:
  assumes "length (fromHex (ENCRYPTION_KEY C)) = 32"
    and "length (ivAccess d) = IV_LENGTH" and "length (ivRefresh d) = IV_LENGTH"
    and "randomUUID d \<notin> set (map id' db)"
    and "decryptsBack C (ivAccess d) (utf8Encode (ConnectionData.accessToken data))"
    and "paddedLength C (ivAccess d) (utf8Encode (ConnectionData.accessToken data))"
    and "case ConnectionData.refreshToken data of
           None \<Rightarrow> True
         | Some t \<Rightarrow> paddedLength C (ivRefresh d) (utf8Encode t)"
    and "wellFormed (ConnectionData.accessToken data)"
    and "getConnections C db (ConnectionData.userId data) = Inr listed"
  shows "saveConnection C d data db = Inr (db @ [insertedRow C d data])
       \<and> getConnections C (db @ [insertedRow C d data]) (ConnectionData.userId data) =
           Inr (listed @ [(insertedRow C d data)
                            \<lparr>ConnectionData.accessToken := ConnectionData.accessToken data\<rparr>])
       \<and> ConnectionData.truncate
             ((insertedRow C d data)
                \<lparr>ConnectionData.accessToken := ConnectionData.accessToken data\<rparr>) =
           data\<lparr>ConnectionData.refreshToken :=
                  ConnectionData.refreshToken (insertedRow C d data)\<rparr>
       \<and> ConnectionData.accessToken (insertedRow C d data) =
           toHex (ivAccess d) @ colon #
           toHex (cipher C (fromHex (ENCRYPTION_KEY C)) (ivAccess d)
                    (utf8Encode (ConnectionData.accessToken data)))
       \<and> ConnectionData.accessToken (insertedRow C d data) \<noteq> ConnectionData.accessToken data
       \<and> (case ConnectionData.refreshToken data of
             None \<Rightarrow> ConnectionData.refreshToken (insertedRow C d data) = None
           | Some t \<Rightarrow>
               if t = [] then ConnectionData.refreshToken (insertedRow C d data) = None
               else ConnectionData.refreshToken (insertedRow C d data) =
                      Some (toHex (ivRefresh d) @ colon #
                            toHex (cipher C (fromHex (ENCRYPTION_KEY C)) (ivRefresh d)
                                     (utf8Encode t)))
                    \<and> ConnectionData.refreshToken (insertedRow C d data) \<noteq> Some t)"
proof -
  from assms(2,3) have iv: "length (ivAccess d) = 16" "length (ivRefresh d) = 16"
    by (simp_all add: IV_LENGTH_def)
  have s: "saveConnection C d data db = Inr (db @ [insertedRow C d data])"
    using assms(1) iv assms(4) by (rule saveConnection_eq)
  have g: "getConnections C (db @ [insertedRow C d data]) (ConnectionData.userId data) =
           Inr (listed @ [(insertedRow C d data)
                            \<lparr>ConnectionData.accessToken := ConnectionData.accessToken data\<rparr>])"
    using assms(1) iv(1) assms(5,8,9) by (rule listed_after_insert)
  have t: "ConnectionData.truncate
             ((insertedRow C d data)
                \<lparr>ConnectionData.accessToken := ConnectionData.accessToken data\<rparr>) =
           data\<lparr>ConnectionData.refreshToken :=
                  ConnectionData.refreshToken (insertedRow C d data)\<rparr>"
    by (simp add: insertedRow_def ConnectionData.truncate_def)
  have a: "ConnectionData.accessToken (insertedRow C d data) =
           toHex (ivAccess d) @ colon #
           toHex (cipher C (fromHex (ENCRYPTION_KEY C)) (ivAccess d)
                    (utf8Encode (ConnectionData.accessToken data)))"
    by (simp add: insertedRow_def encryptedForm_def)
  have n: "ConnectionData.accessToken (insertedRow C d data) \<noteq> ConnectionData.accessToken data"
    unfolding a using assms(6) by (rule encrypted_differs)
  have r: "case ConnectionData.refreshToken data of
             None \<Rightarrow> ConnectionData.refreshToken (insertedRow C d data) = None
           | Some t \<Rightarrow>
               if t = [] then ConnectionData.refreshToken (insertedRow C d data) = None
               else ConnectionData.refreshToken (insertedRow C d data) =
                      Some (toHex (ivRefresh d) @ colon #
                            toHex (cipher C (fromHex (ENCRYPTION_KEY C)) (ivRefresh d)
                                     (utf8Encode t)))
                    \<and> ConnectionData.refreshToken (insertedRow C d data) \<noteq> Some t"
  proof (cases "ConnectionData.refreshToken data")
    case None
    then show ?thesis by (simp add: insertedRow_def)
  next
    case (Some t)
    with assms(7) have "paddedLength C (ivRefresh d) (utf8Encode t)" by simp
    from encrypted_differs[OF this] Some show ?thesis
      by (simp add: insertedRow_def encryptedForm_def)
  qed
  from s g t a n r show ?thesis by blast
qed

theorem save_then_get_witness:
  "length (fromHex (ENCRYPTION_KEY sample_crypto)) = 32 \<and>
   length (ivAccess sample_draws) = IV_LENGTH \<and> length (ivRefresh sample_draws) = IV_LENGTH \<and>
   randomUUID sample_draws \<notin> set (map id' []) \<and>
   decryptsBack sample_crypto (ivAccess sample_draws)
     (utf8Encode (ConnectionData.accessToken sample_data)) \<and>
   paddedLength sample_crypto (ivAccess sample_draws)
     (utf8Encode (ConnectionData.accessToken sample_data)) \<and>
   ConnectionData.refreshToken sample_data = Some (js ''r1'') \<and>
   paddedLength sample_crypto (ivRefresh sample_draws) (utf8Encode (js ''r1'')) \<and>
   wellFormed (ConnectionData.accessToken sample_data) \<and>
   getConnections sample_crypto [] (ConnectionData.userId sample_data) = Inr [] \<and>
   saveConnection sample_crypto sample_draws sample_data [] = Inr [sample_row] \<and>
   getConnections sample_crypto [sample_row] ''u-1'' =
     Inr [sample_row\<lparr>ConnectionData.accessToken := js ''t1''\<rparr>] \<and>
   ConnectionData.accessToken sample_row \<noteq> js ''t1''"
proof -
  have h: "length (fromHex (ENCRYPTION_KEY sample_crypto)) = 32"
    "length (ivAccess sample_draws) = IV_LENGTH" "length (ivRefresh sample_draws) = IV_LENGTH"
    "randomUUID sample_draws \<notin> set (map id' [])"
    "decryptsBack sample_crypto (ivAccess sample_draws)
       (utf8Encode (ConnectionData.accessToken sample_data))"
    "paddedLength sample_crypto (ivAccess sample_draws)
       (utf8Encode (ConnectionData.accessToken sample_data))"
    by (simp_all add: sample_key sample_draws_def sample_iv_def sample_iv'_def IV_LENGTH_def
        sample_decryptsBack sample_paddedLength)
  have r: "ConnectionData.refreshToken sample_data = Some (js ''r1'')"
    "paddedLength sample_crypto (ivRefresh sample_draws) (utf8Encode (js ''r1''))"
    by (simp_all add: sample_data_def sample_paddedLength)
  then have h7: "case ConnectionData.refreshToken sample_data of
           None \<Rightarrow> True
         | Some t \<Rightarrow> paddedLength sample_crypto (ivRefresh sample_draws) (utf8Encode t)"
    by simp
  have w: "wellFormed (ConnectionData.accessToken sample_data)"
    by (simp add: sample_data_def wellFormed_ascii)
  have g: "getConnections sample_crypto [] (ConnectionData.userId sample_data) = Inr []"
    by (simp add: getConnections_def)
  have f: "ConnectionData.userId sample_data = ''u-1''"
    "ConnectionData.accessToken sample_data = js ''t1''"
    by (simp_all add: sample_data_def)
  note t = save_then_get[OF h h7 w g]
  from t have s: "saveConnection sample_crypto sample_draws sample_data [] = Inr [sample_row]"
    by (simp add: sample_row_def)
  from t have "getConnections sample_crypto ([] @ [insertedRow sample_crypto sample_draws sample_data])
        (ConnectionData.userId sample_data) =
      Inr ([] @ [(insertedRow sample_crypto sample_draws sample_data)
                   \<lparr>ConnectionData.accessToken := ConnectionData.accessToken sample_data\<rparr>])"
    by blast
  then have l: "getConnections sample_crypto [sample_row] ''u-1'' =
      Inr [sample_row\<lparr>ConnectionData.accessToken := js ''t1''\<rparr>]"
    by (simp add: sample_row_def f)
  from t have "ConnectionData.accessToken (insertedRow sample_crypto sample_draws sample_data)
      \<noteq> ConnectionData.accessToken sample_data"
    by blast
  then have n: "ConnectionData.accessToken sample_row \<noteq> js ''t1''"
    by (simp add: sample_row_def f)
  from h r w g s l n show ?thesis by blast
qed

text \<open>The refresh token \<^verbatim>\<open>r1\<close> is saved; the listed entry holds its encrypted form.\<close>

theorem listed_refresh_token_is_the_stored_one:
  "saveConnection sample_crypto sample_draws sample_data [] = Inr [sample_row] \<and>
   getConnections sample_crypto [sample_row] ''u-1'' =
     Inr [sample_row\<lparr>ConnectionData.accessToken := js ''t1''\<rparr>] \<and>
   ConnectionData.refreshToken sample_data = Some (js ''r1'') \<and>
   ConnectionData.refreshToken (sample_row\<lparr>ConnectionData.accessToken := js ''t1''\<rparr>) =
     Some (encryptedForm sample_crypto sample_iv' (js ''r1'')) \<and>
   ConnectionData.refreshToken (sample_row\<lparr>ConnectionData.accessToken := js ''t1''\<rparr>) \<noteq>
     ConnectionData.refreshToken sample_data"
proof -
  have "encryptedForm sample_crypto sample_iv' (js ''r1'') \<noteq> js ''r1''"
    unfolding encryptedForm_def by (rule encrypted_differs) (rule sample_paddedLength)
  then show ?thesis using sample_save sample_listed
    by (simp add: sample_row_def insertedRow_def sample_data_def sample_draws_def js_def)
qed

subsection \<open>C4: refresh inside the buffer\<close>



subsection \<open>C5: a refresh token the provider rejects\<close>

text \<open>
  Claim C5, as amended. When the refresh is due and \<^verbatim>\<open>refreshAccessToken\<close> fails, for whatever
  cause, \<open>refreshTokenIfNeeded\<close> passes the failure on to its caller: it makes no
  \<^verbatim>\<open>updateConnection\<close> call and leaves the table, active flags included, as it was, so
  \<open>getConnections\<close> lists after the failure what it listed before; and a later call for the
  same connection calls \<^verbatim>\<open>refreshAccessToken\<close> again. The claim as stated fails: nothing
  in the function clears the active flag or remembers the failure.
\<close>

theorem refresh_failure_changes_nothing:
  assumes "ConnectionData.tokenExpiresAt connection = Some expiresAt"
    and "expiresAt - now < 5 * 60 * 1000"
    and "refreshAccessToken (platform connection) (ConnectionData.refreshToken connection)
         = Inl e"
  shows "refreshTokenIfNeeded refreshAccessToken updateConnection now now' connection db =
           \<lparr>result = Inl e, store = db,
            calls = [RefreshAccessToken (platform connection)
                       (ConnectionData.refreshToken connection)]\<rparr>
       \<and> getConnections C
            (store (refreshTokenIfNeeded refreshAccessToken updateConnection now now'
                      connection db)) user
          = getConnections C db user
       \<and> (\<forall>later later'. now \<le> later \<longrightarrow>
            calls (refreshTokenIfNeeded refreshAccessToken updateConnection later later'
                     connection
                     (store (refreshTokenIfNeeded refreshAccessToken updateConnection now now'
                               connection db))) =
            [RefreshAccessToken (platform connection)
               (ConnectionData.refreshToken connection)])"
  using assms by (simp add: refreshTokenIfNeeded_def Let_def)

theorem refresh_failure_changes_nothing_witness:
  "ConnectionData.tokenExpiresAt sample_connection = Some 1000000 \<and>
   (1000000 - 900000 < (5 * 60 * 1000 :: int)) \<and>
   refreshTokenIfNeeded (\<lambda>p t. Inl (Error ''invalid_grant'')) sample_update 900000 900001
     sample_connection [sample_connection] =
   \<lparr>result = Inl (Error ''invalid_grant''), store = [sample_connection],
    calls = [RefreshAccessToken ''facebook'' (Some [0x72, 0x31])]\<rparr> \<and>
   calls (refreshTokenIfNeeded (\<lambda>p t. Inl (Error ''invalid_grant'')) sample_update
            950000 950001 sample_connection
            (store (refreshTokenIfNeeded (\<lambda>p t. Inl (Error ''invalid_grant'')) sample_update
                      900000 900001 sample_connection [sample_connection]))) =
   [RefreshAccessToken ''facebook'' (Some [0x72, 0x31])]"
proof -
  have h: "ConnectionData.tokenExpiresAt sample_connection = Some 1000000"
    "1000000 - 900000 < (5 * 60 * 1000 :: int)"
    "(\<lambda>p t. Inl (Error ''invalid_grant'')) (platform sample_connection)
       (ConnectionData.refreshToken sample_connection) = Inl (Error ''invalid_grant'')"
    by (simp_all add: sample_connection_def)
  note t = refresh_failure_changes_nothing
    [where connection = sample_connection and expiresAt = 1000000 and now = 900000
       and refreshAccessToken = "\<lambda>p t. Inl (Error ''invalid_grant'')"
       and e = "Error ''invalid_grant''" and updateConnection = sample_update
       and now' = 900001 and db = "[sample_connection]" and C = sample_crypto
       and user = "''u-1''", OF h]
  from t have a: "refreshTokenIfNeeded (\<lambda>p t. Inl (Error ''invalid_grant'')) sample_update
      900000 900001 sample_connection [sample_connection] =
    \<lparr>result = Inl (Error ''invalid_grant''), store = [sample_connection],
     calls = [RefreshAccessToken ''facebook'' (Some [0x72, 0x31])]\<rparr>"
    by (simp add: sample_connection_def)
  from t have "\<forall>later later'. (900000::int) \<le> later \<longrightarrow>
      calls (refreshTokenIfNeeded (\<lambda>p t. Inl (Error ''invalid_grant'')) sample_update
               later later' sample_connection
               (store (refreshTokenIfNeeded (\<lambda>p t. Inl (Error ''invalid_grant''))
                         sample_update 900000 900001 sample_connection [sample_connection]))) =
      [RefreshAccessToken (platform sample_connection)
         (ConnectionData.refreshToken sample_connection)]"
    by blast
  then have b: "calls (refreshTokenIfNeeded (\<lambda>p t. Inl (Error ''invalid_grant'')) sample_update
            950000 950001 sample_connection
            (store (refreshTokenIfNeeded (\<lambda>p t. Inl (Error ''invalid_grant'')) sample_update
                      900000 900001 sample_connection [sample_connection]))) =
      [RefreshAccessToken ''facebook'' (Some [0x72, 0x31])]"
    by (simp add: sample_connection_def)
  from h(1,2) a b show ?thesis by simp
qed

text \<open>The provider rejects the refresh token of the one stored connection, which is 100
  seconds from expiry: the row stays active and stays listed.\<close>

theorem rejected_refresh_token_stays_active:
  "getConnections sample_crypto [sample_row] ''u-1'' =
     Inr [sample_row\<lparr>ConnectionData.accessToken := js ''t1''\<rparr>] \<and>
   refreshTokenIfNeeded (\<lambda>p t. Inl (Error ''invalid_grant'')) sample_update 3500000 3500001
     (sample_row\<lparr>ConnectionData.accessToken := js ''t1''\<rparr>) [sample_row] =
   \<lparr>result = Inl (Error ''invalid_grant''), store = [sample_row],
    calls = [RefreshAccessToken ''facebook''
               (Some (encryptedForm sample_crypto sample_iv' (js ''r1'')))]\<rparr> \<and>
   isActive sample_row \<and>
   getConnections sample_crypto
     (store (refreshTokenIfNeeded (\<lambda>p t. Inl (Error ''invalid_grant'')) sample_update
               3500000 3500001
               (sample_row\<lparr>ConnectionData.accessToken := js ''t1''\<rparr>) [sample_row]))
     ''u-1'' =
   Inr [sample_row\<lparr>ConnectionData.accessToken := js ''t1''\<rparr>]"
proof -
  have r: "refreshTokenIfNeeded (\<lambda>p t. Inl (Error ''invalid_grant'')) sample_update
      3500000 3500001 (sample_row\<lparr>ConnectionData.accessToken := js ''t1''\<rparr>) [sample_row] =
    \<lparr>result = Inl (Error ''invalid_grant''), store = [sample_row],
     calls = [RefreshAccessToken ''facebook''
                (Some (encryptedForm sample_crypto sample_iv' (js ''r1'')))]\<rparr>"
    by (simp add: refreshTokenIfNeeded_def sample_row_def insertedRow_def sample_data_def
        sample_draws_def js_def)
  have a: "isActive sample_row" by (simp add: sample_row_def insertedRow_def)
  show ?thesis using r a sample_listed by simp
qed

subsection \<open>C6: a callback with a forged state\<close>




subsection \<open>C7: a failed token exchange\<close>

text \<open>
  Claim C7, as amended. When the platform is configured and the provider's token endpoint
  answers with a status outside 200 to 299, \<open>exchangeCodeForTokens\<close> fails with an
  \<^verbatim>\<open>Error\<close> whose message is \<^verbatim>\<open>Token exchange failed: \<close> followed by the response body,
  and it has made exactly one request to the token endpoint: there is no retry. The
  status of the response is not part of the failure.
\<close>

theorem exchange_failure_single_request:
  assumes "getProviderConfig platform' = Some provider"
    and "fetch (token_request provider code) = Inr response"
    and "\<not> ok response"
  shows "exchangeCodeForTokens getProviderConfig fetch json platform' code =
         (Inl (Error (''Token exchange failed: '' @ bodyText response)),
          [Fetch (token_request provider code)])"
  using assms by (simp add: exchangeCodeForTokens_def Let_def)

theorem exchange_failure_single_request_witness:
  "sample_providers ''facebook'' =
     Some (facebookProvider ''app-id'' ''app-secret'' ''https://example.test'') \<and>
   \<not> ok \<lparr>status = 400, bodyText = ''bad code''\<rparr> \<and>
   exchangeCodeForTokens sample_providers (\<lambda>r. Inr \<lparr>status = 400, bodyText = ''bad code''\<rparr>)
     (\<lambda>r. Inl SyntaxError) ''facebook'' ''abc123'' =
   (Inl (Error ''Token exchange failed: bad code''),
    [Fetch \<lparr>url = ''https://graph.facebook.com/v18.0/oauth/access_token'',
            method' = ''POST'',
            headers = [(''Content-Type'', ''application/x-www-form-urlencoded'')],
            body = [(''client_id'', ''app-id''), (''client_secret'', ''app-secret''),
                    (''code'', ''abc123''), (''grant_type'', ''authorization_code''),
                    (''redirect_uri'', ''https://example.test/api/auth/facebook/callback'')]\<rparr>])"
  using exchange_failure_single_request
    [of sample_providers "''facebook''"
        "facebookProvider ''app-id'' ''app-secret'' ''https://example.test''"
        "\<lambda>r. Inr \<lparr>status = 400, bodyText = ''bad code''\<rparr>" "''abc123''"
        "\<lparr>status = 400, bodyText = ''bad code''\<rparr>" "\<lambda>r. Inl SyntaxError"]
  by (simp add: sample_providers_def ok_def token_request_def facebookProvider_def)

text \<open>Two responses that differ in their status only, 400 and 503, give the same failure,
  so the status cannot be read off it.\<close>

theorem exchange_failure_drops_status:
  "exchangeCodeForTokens sample_providers (\<lambda>r. Inr \<lparr>status = 400, bodyText = ''bad code''\<rparr>)
     (\<lambda>r. Inl SyntaxError) ''facebook'' ''abc123'' =
   exchangeCodeForTokens sample_providers (\<lambda>r. Inr \<lparr>status = 503, bodyText = ''bad code''\<rparr>)
     (\<lambda>r. Inl SyntaxError) ''facebook'' ''abc123'' \<and>
   fst (exchangeCodeForTokens sample_providers
          (\<lambda>r. Inr \<lparr>status = 400, bodyText = ''bad code''\<rparr>)
          (\<lambda>r. Inl SyntaxError) ''facebook'' ''abc123'') =
   Inl (Error ''Token exchange failed: bad code'')"
  by (simp add: exchangeCodeForTokens_def sample_providers_def ok_def Let_def)

subsection \<open>C8: a callback after the state cookie has expired\<close>




subsection \<open>C9: decrypting an encrypted token\<close>

text \<open>
  Claim C9, as amended. With a 32-byte key, the 16-byte IV that \<open>encryptToken\<close> draws and a
  cipher whose decryption undoes its encryption of the token's UTF-8 bytes, \<open>encryptToken\<close>
  returns the IV in hexadecimal, a colon and the ciphertext in hexadecimal, and
  \<open>decryptToken\<close> of that string is the token again, for every token that is well formed
  (every surrogate in it is half of a pair). The encrypted string alone, with the key,
  determines the result: no other stored value takes part. The claim as stated, for every
  token string, fails: a token with an unpaired surrogate is encrypted as U+FFFD and comes
  back as U+FFFD.
\<close>

theorem decrypt_inverts_encrypt_wellFormed:
  assumes "length (fromHex (ENCRYPTION_KEY C)) = 32"
    and "length iv = IV_LENGTH"
    and "decryptsBack C iv (utf8Encode token)"
    and "wellFormed token"
  shows "encryptToken C iv token =
           Inr (toHex iv @ colon #
                toHex (cipher C (fromHex (ENCRYPTION_KEY C)) iv (utf8Encode token)))
         \<and> decryptEncrypted C iv token = Inr token"
proof -
  from assms(2) have iv: "length iv = 16" by (simp add: IV_LENGTH_def)
  have "decryptEncrypted C iv token = Inr (utf8Decode (utf8Encode token))"
    using assms(1) iv assms(3) by (rule decryptEncrypted_eq)
  with assms(4) have "decryptEncrypted C iv token = Inr token"
    by (simp add: utf8_roundtrip)
  moreover note encryptToken_eq[OF assms(1) iv, of token]
  ultimately show ?thesis by simp
qed

theorem decrypt_inverts_encrypt_wellFormed_witness:
  "length (fromHex (ENCRYPTION_KEY sample_crypto)) = 32 \<and>
   length sample_iv = IV_LENGTH \<and>
   decryptsBack sample_crypto sample_iv (utf8Encode (js ''t1'')) \<and>
   wellFormed (js ''t1'') \<and>
   decryptEncrypted sample_crypto sample_iv (js ''t1'') = Inr (js ''t1'')"
proof -
  have k: "length (fromHex (ENCRYPTION_KEY sample_crypto)) = 32" by (rule sample_key)
  have i: "length sample_iv = IV_LENGTH" by (simp add: sample_iv_def IV_LENGTH_def)
  have d: "decryptsBack sample_crypto sample_iv (utf8Encode (js ''t1''))"
    by (rule sample_decryptsBack)
  have w: "wellFormed (js ''t1'')"
    by (simp add: wellFormed_def js_def isHigh_def isLow_def)
  from decrypt_inverts_encrypt_wellFormed[OF k i d w] k i d w show ?thesis by simp
qed

text \<open>The token made of the single code unit D800 does not come back.\<close>

theorem unpaired_surrogate_not_restored:
  "decryptEncrypted sample_crypto sample_iv [0xD800] = Inr [0xFFFD] \<and>
   decryptEncrypted sample_crypto sample_iv [0xD800] \<noteq> Inr [0xD800]"
proof -
  have "utf8Decode (utf8Encode [0xD800]) = [0xFFFD]"
    by (simp add: utf8Decode_def utf8Encode_def isHigh_def isLow_def encodeCodePoint_def
        decoderStart_def firstByte_def codeUnits_def)
  moreover have "decryptEncrypted sample_crypto sample_iv [0xD800] =
      Inr (utf8Decode (utf8Encode [0xD800]))"
    by (rule decryptEncrypted_eq) (simp_all add: sample_key sample_iv_def sample_decryptsBack)
  ultimately show ?thesis by simp
qed

subsection \<open>C10: no expiry, no refresh\<close>

text \<open>
  Claim C10. For every connection whose expiry timestamp is null, \<^verbatim>\<open>refreshTokenIfNeeded\<close>
  returns the connection's access token unchanged, calls neither \<^verbatim>\<open>refreshAccessToken\<close>
  nor \<^verbatim>\<open>updateConnection\<close>, and leaves the table as it is, whatever the two clock
  readings and whatever the helpers would have done.
\<close>

theorem refresh_noop_without_expiry:
  assumes "ConnectionData.tokenExpiresAt connection = None"
  shows "refreshTokenIfNeeded refreshAccessToken updateConnection now now' connection db =
         \<lparr>result = Inr (ConnectionData.accessToken connection), store = db, calls = []\<rparr>"
  using assms by (simp add: refreshTokenIfNeeded_def)

theorem refresh_noop_without_expiry_witness:
  "ConnectionData.tokenExpiresAt
     (sample_connection\<lparr>ConnectionData.tokenExpiresAt := None\<rparr>) = None \<and>
   refreshTokenIfNeeded (\<lambda>p t. Inr sample_tokens) sample_update 5 6
     (sample_connection\<lparr>ConnectionData.tokenExpiresAt := None\<rparr>) [sample_connection] =
   \<lparr>result = Inr [0x74, 0x31], store = [sample_connection], calls = []\<rparr>"
  using refresh_noop_without_expiry
    [of "sample_connection\<lparr>ConnectionData.tokenExpiresAt := None\<rparr>"
        "\<lambda>p t. Inr sample_tokens" sample_update 5 6 "[sample_connection]"]
  by (simp add: sample_connection_def)


end
